theory Spec2Isabelle
  imports Main "HOL-Library.Word"
begin

section \<open>Data model\<close>

text \<open>
  JavaScript strings are sequences of UTF-16 code units. User ids and post ids are the
  integer keys of the \<open>users\<close> and \<open>posts\<close> tables.
\<close>

type_synonym js_string = "16 word list"
type_synonym user_id = int
type_synonym post_id = int

text \<open>
  \<open>String.prototype.trim\<close> strips WhiteSpace and LineTerminator code points from both
  ends; all of them lie in the basic multilingual plane, so the test is on one code unit.
\<close>

definition isWhiteSpace :: "16 word \<Rightarrow> bool" where
  "isWhiteSpace c \<longleftrightarrow>
     c \<in> {0x0009, 0x000A, 0x000B, 0x000C, 0x000D, 0x0020, 0x00A0, 0x1680,
          0x2028, 0x2029, 0x202F, 0x205F, 0x3000, 0xFEFF}
     \<or> (0x2000 \<le> c \<and> c \<le> 0x200A)"

definition trim :: "js_string \<Rightarrow> js_string" where
  "trim s = rev (dropWhile isWhiteSpace (rev (dropWhile isWhiteSpace s)))"

text \<open>A row of the \<open>posts\<close> table; \<open>id_col\<close> is the column \<open>id\<close>.\<close>

record post =
  id_col :: post_id
  author_id :: user_id
  content :: js_string
  likes :: int
  created_at :: js_string

text \<open>
  The objects stored in the undo stack. The handlers build
  \<open>{type: 'EDIT', post_id, original_content, new_content, timestamp}\<close> and
  \<open>{type: 'DELETE', post, timestamp}\<close>; \<open>OTHER tag timestamp\<close> stands for an object
  whose \<open>type\<close> is neither of the two, which the last branch of the undo handler
  is written for.
\<close>

datatype action =
    EDIT post_id js_string js_string js_string
  | DELETE post js_string
  | OTHER string js_string

section \<open>The class UndoStack\<close>

text \<open>
  \<open>this.stacks\<close> is a \<open>Map\<close> from user id to an array of actions. The array's
  \<open>push\<close> appends at the end, \<open>pop\<close> removes the last element and \<open>shift\<close>
  removes the first.
\<close>

type_synonym stacks = "user_id \<rightharpoonup> action list"

definition push :: "stacks \<Rightarrow> user_id \<Rightarrow> action \<Rightarrow> stacks" where
  "push stacks userId action =
     (let s = (case stacks userId of None \<Rightarrow> [] | Some s \<Rightarrow> s) @ [action]
      in stacks(userId \<mapsto> (if length s > 10 then tl s else s)))"

definition pop :: "stacks \<Rightarrow> user_id \<Rightarrow> action option \<times> stacks" where
  "pop stacks userId =
     (case stacks userId of
        None \<Rightarrow> (None, stacks)
      | Some s \<Rightarrow>
          if length s = 0 then (None, stacks)
          else (Some (last s), stacks(userId \<mapsto> butlast s)))"

definition peek :: "stacks \<Rightarrow> user_id \<Rightarrow> action option" where
  "peek stacks userId =
     (case stacks userId of
        None \<Rightarrow> None
      | Some s \<Rightarrow> if length s = 0 then None else Some (s ! (length s - 1)))"

definition isEmpty :: "stacks \<Rightarrow> user_id \<Rightarrow> bool" where
  "isEmpty stacks userId =
     (case stacks userId of None \<Rightarrow> True | Some s \<Rightarrow> length s = 0)"

definition clear :: "stacks \<Rightarrow> user_id \<Rightarrow> stacks" where
  "clear stacks userId =
     (if stacks userId \<noteq> None then stacks(userId := None) else stacks)"

definition size_of :: "stacks \<Rightarrow> user_id \<Rightarrow> nat" where
  "size_of stacks userId =
     (case stacks userId of None \<Rightarrow> 0 | Some s \<Rightarrow> length s)"

text \<open>The sequence recorded for a user, an absent entry read as the empty sequence.\<close>

definition entries :: "stacks \<Rightarrow> user_id \<Rightarrow> action list" where
  "entries stacks userId = (case stacks userId of None \<Rightarrow> [] | Some s \<Rightarrow> s)"

text \<open>
  Calls of the six methods, and what a sequence of calls leaves in \<open>this.stacks\<close>.
  \<open>peek\<close>, \<open>isEmpty\<close> and \<open>size\<close> only read.
\<close>

datatype stack_op =
    Push user_id action
  | Pop user_id
  | Peek user_id
  | IsEmpty user_id
  | Clear user_id
  | Size user_id

fun target :: "stack_op \<Rightarrow> user_id" where
  "target (Push u a) = u"
| "target (Pop u) = u"
| "target (Peek u) = u"
| "target (IsEmpty u) = u"
| "target (Clear u) = u"
| "target (Size u) = u"

fun exec_op :: "stack_op \<Rightarrow> stacks \<Rightarrow> stacks" where
  "exec_op (Push u a) m = push m u a"
| "exec_op (Pop u) m = snd (pop m u)"
| "exec_op (Peek u) m = m"
| "exec_op (IsEmpty u) m = m"
| "exec_op (Clear u) m = clear m u"
| "exec_op (Size u) m = m"

fun run_ops :: "stack_op list \<Rightarrow> stacks \<Rightarrow> stacks" where
  "run_ops [] m = m"
| "run_ops (c # cs) m = run_ops cs (exec_op c m)"

text \<open>\<open>n\<close> calls of \<open>pop\<close> in a row: what each returned, and the mapping left.\<close>

fun pops :: "nat \<Rightarrow> user_id \<Rightarrow> stacks \<Rightarrow> action option list \<times> stacks" where
  "pops 0 u m = ([], m)"
| "pops (Suc n) u m =
     (case pop m u of (r, m') \<Rightarrow> (case pops n u m' of (rs, m'') \<Rightarrow> (r # rs, m'')))"

section \<open>The store\<close>

text \<open>
  The handlers reach the database through the Supabase client, which is not part of the
  repository. Each query chain the handlers issue is a field of \<open>post_store\<close>, over
  any type \<open>'db\<close> of database states; a chain answers \<open>{data, error}\<close>, here
  \<open>Inr data\<close> or \<open>Inl error\<close> (with \<open>.single()\<close> exactly one of the two is set),
  and \<open>{error}\<close> alone for a delete, \<open>{count}\<close> (a number or null) for a count.
  The client reports a failed query in \<open>error\<close>; it does not throw. A select does
  not change the database.
\<close>

datatype store_error = StoreError string

fun err_message :: "store_error \<Rightarrow> string" where
  "err_message (StoreError m) = m"

record 'db post_store =
  select_post :: "post_id \<Rightarrow> user_id \<Rightarrow> 'db \<Rightarrow> store_error + post"
  update_content :: "post_id \<Rightarrow> user_id \<Rightarrow> js_string \<Rightarrow> 'db \<Rightarrow> (store_error + post) \<times> 'db"
  insert_post :: "post \<Rightarrow> 'db \<Rightarrow> (store_error + post) \<times> 'db"
  delete_likes :: "post_id \<Rightarrow> 'db \<Rightarrow> store_error option \<times> 'db"
  delete_comments :: "post_id \<Rightarrow> 'db \<Rightarrow> store_error option \<times> 'db"
  delete_post :: "post_id \<Rightarrow> user_id \<Rightarrow> 'db \<Rightarrow> store_error option \<times> 'db"
  count_likes :: "post_id \<Rightarrow> 'db \<Rightarrow> nat option"
  count_comments :: "post_id \<Rightarrow> 'db \<Rightarrow> nat option"

section \<open>The handlers\<close>

text \<open>The JSON answers: the status, \<open>success\<close>, \<open>message\<close>, \<open>error\<close> and \<open>data\<close>.\<close>

record post_view =
  view_post_id :: post_id
  view_content :: js_string
  view_timestamp :: js_string
  likes_count :: nat
  comments_count :: nat

datatype resp_data =
    NoData
  | EditData post
  | DeleteData post_id
  | UndoData string post_view nat

record response =
  status :: nat
  success :: bool
  message :: string
  error :: "string option"
  data :: resp_data

definition failure :: "nat \<Rightarrow> string \<Rightarrow> string option \<Rightarrow> response" where
  "failure code msg err =
     \<lparr>status = code, success = False, message = msg, error = err, data = NoData\<rparr>"

definition ok :: "string \<Rightarrow> resp_data \<Rightarrow> response" where
  "ok msg d = \<lparr>status = 200, success = True, message = msg, error = None, data = d\<rparr>"

text \<open>\<open>remaining_undos\<close> of an answer of the undo handler.\<close>

fun remaining_undos :: "response \<Rightarrow> nat option" where
  "remaining_undos r = (case data r of UndoData a v n \<Rightarrow> Some n | _ \<Rightarrow> None)"

text \<open>The process state the handlers share: the global \<open>undoStack\<close> and the database.\<close>

record 'db server =
  undoStack :: stacks
  db :: 'db

text \<open>\<open>count || 0\<close>.\<close>

fun or_zero :: "nat option \<Rightarrow> nat" where
  "or_zero None = 0"
| "or_zero (Some n) = n"

text \<open>
  \<open>PUT /api/posts/edit\<close>. \<open>req_post_id\<close> and \<open>req_content\<close> are the body's
  \<open>post_id\<close> and \<open>content\<close>, \<open>None\<close> when the field is missing; \<open>!post_id\<close> holds
  of a missing id and of 0, \<open>!content\<close> of a missing and of an empty string.
  \<open>now\<close> is \<open>new Date().toISOString()\<close>.
\<close>

definition posts_edit ::
  "'db post_store \<Rightarrow> js_string \<Rightarrow> user_id \<Rightarrow> post_id option \<Rightarrow> js_string option \<Rightarrow>
   'db server \<Rightarrow> response \<times> 'db server" where
  "posts_edit st now userId req_post_id req_content s =
     (case (req_post_id, req_content) of
        (Some pid, Some c) \<Rightarrow>
          if pid = 0 \<or> c = [] then
            (failure 400 ''Post ID and content are required'' None, s)
          else if length (trim c) = 0 then
            (failure 400 ''Post content cannot be empty'' None, s)
          else
            (case select_post st pid userId (db s) of
               Inl fetchError \<Rightarrow>
                 (failure 404 ''Post not found or you do not have permission to edit it'' None, s)
             | Inr originalPost \<Rightarrow>
                 (let stk = push (undoStack s) userId
                              (EDIT (id_col originalPost) (content originalPost) (trim c) now)
                  in (case update_content st pid userId (trim c) (db s) of
                        (Inl updateError, db') \<Rightarrow>
                          (failure 500 ''Failed to update post''
                             (Some (err_message updateError)),
                           \<lparr>undoStack = stk, db = db'\<rparr>)
                      | (Inr updatedPost, db') \<Rightarrow>
                          (ok ''Post updated successfully'' (EditData updatedPost),
                           \<lparr>undoStack = stk, db = db'\<rparr>))))
      | _ \<Rightarrow> (failure 400 ''Post ID and content are required'' None, s))"

text \<open>\<open>DELETE /api/posts/delete\<close>. Errors of the two dependent deletes are only logged.\<close>

definition posts_delete ::
  "'db post_store \<Rightarrow> js_string \<Rightarrow> user_id \<Rightarrow> post_id option \<Rightarrow>
   'db server \<Rightarrow> response \<times> 'db server" where
  "posts_delete st now userId req_post_id s =
     (case req_post_id of
        None \<Rightarrow> (failure 400 ''Post ID is required'' None, s)
      | Some pid \<Rightarrow>
          if pid = 0 then (failure 400 ''Post ID is required'' None, s)
          else
            (case select_post st pid userId (db s) of
               Inl fetchError \<Rightarrow>
                 (failure 404 ''Post not found or you do not have permission to delete it'' None, s)
             | Inr postToDelete \<Rightarrow>
                 (let stk = push (undoStack s) userId
                              (DELETE \<lparr>id_col = id_col postToDelete,
                                       author_id = author_id postToDelete,
                                       content = content postToDelete,
                                       likes = likes postToDelete,
                                       created_at = created_at postToDelete\<rparr> now)
                  in (case delete_likes st pid (db s) of (likesDeleteError, db1) \<Rightarrow>
                     (case delete_comments st pid db1 of (commentsDeleteError, db2) \<Rightarrow>
                     (case delete_post st pid userId db2 of
                        (Some deleteError, db3) \<Rightarrow>
                          (failure 500 ''Failed to delete post''
                             (Some (err_message deleteError)),
                           \<lparr>undoStack = stk, db = db3\<rparr>)
                      | (None, db3) \<Rightarrow>
                          (ok ''Post deleted successfully'' (DeleteData pid),
                           \<lparr>undoStack = stk, db = db3\<rparr>)))))))"

text \<open>
  \<open>POST /api/posts/undo\<close>. Were \<open>pop\<close> to return null after \<open>isEmpty\<close> returned
  false, reading \<open>lastAction.type\<close> would throw, and the handler's \<open>catch\<close> answers 500.
\<close>

definition restored_view :: "'db post_store \<Rightarrow> post \<Rightarrow> 'db \<Rightarrow> post_view" where
  "restored_view st restoredPost d =
     \<lparr>view_post_id = id_col restoredPost,
      view_content = content restoredPost,
      view_timestamp = created_at restoredPost,
      likes_count = or_zero (count_likes st (id_col restoredPost) d),
      comments_count = or_zero (count_comments st (id_col restoredPost) d)\<rparr>"

definition posts_undo ::
  "'db post_store \<Rightarrow> user_id \<Rightarrow> 'db server \<Rightarrow> response \<times> 'db server" where
  "posts_undo st userId s =
     (if isEmpty (undoStack s) userId then
        (failure 400 ''No actions to undo'' None, s)
      else
        (case pop (undoStack s) userId of
           (None, stk) \<Rightarrow>
             (failure 500 ''Internal server error''
                (Some ''Cannot read properties of null''),
              \<lparr>undoStack = stk, db = db s\<rparr>)
         | (Some lastAction, stk) \<Rightarrow>
             (case lastAction of
                EDIT post_id original_content new_content timestamp \<Rightarrow>
                  (case update_content st post_id userId original_content (db s) of
                     (Inl restoreError, db') \<Rightarrow>
                       (failure 500 ''Failed to undo edit'' (Some (err_message restoreError)),
                        \<lparr>undoStack = push stk userId lastAction, db = db'\<rparr>)
                   | (Inr restoredPost, db') \<Rightarrow>
                       (ok ''Edit undone successfully''
                          (UndoData ''UNDO_EDIT'' (restored_view st restoredPost db')
                             (size_of stk userId)),
                        \<lparr>undoStack = stk, db = db'\<rparr>))
              | DELETE post timestamp \<Rightarrow>
                  (case insert_post st
                          \<lparr>id_col = id_col post, author_id = author_id post,
                           content = content post, likes = likes post,
                           created_at = created_at post\<rparr> (db s) of
                     (Inl restoreError, db') \<Rightarrow>
                       (failure 500 ''Failed to undo delete'' (Some (err_message restoreError)),
                        \<lparr>undoStack = push stk userId lastAction, db = db'\<rparr>)
                   | (Inr restoredPost, db') \<Rightarrow>
                       (ok ''Delete undone successfully''
                          (UndoData ''UNDO_DELETE'' (restored_view st restoredPost db')
                             (size_of stk userId)),
                        \<lparr>undoStack = stk, db = db'\<rparr>))
              | OTHER tag timestamp \<Rightarrow>
                  (failure 400 ''Unknown action type'' None,
                   \<lparr>undoStack = stk, db = db s\<rparr>))))"

section \<open>A reference store\<close>

text \<open>
  The tables as maps and lists, with the behaviour the queries have on a database where
  \<open>posts.id\<close> is the primary key: a row inserted with an explicit id is stored under
  that id, and a second row with the same id is refused. \<open>.single()\<close> answers an error
  when no row matches.
\<close>

record tables =
  posts :: "post_id \<rightharpoonup> post"
  likes_rows :: "(post_id \<times> user_id) list"
  comments_rows :: "(post_id \<times> js_string) list"

definition no_rows :: store_error where
  "no_rows = StoreError ''JSON object requested, multiple (or no) rows returned''"

definition duplicate_key :: store_error where
  "duplicate_key = StoreError ''duplicate key value violates unique constraint''"

definition mem_select_post :: "post_id \<Rightarrow> user_id \<Rightarrow> tables \<Rightarrow> store_error + post" where
  "mem_select_post pid uid t =
     (case posts t pid of
        None \<Rightarrow> Inl no_rows
      | Some p \<Rightarrow> if author_id p = uid then Inr p else Inl no_rows)"

definition mem_update_content ::
  "post_id \<Rightarrow> user_id \<Rightarrow> js_string \<Rightarrow> tables \<Rightarrow> (store_error + post) \<times> tables" where
  "mem_update_content pid uid c t =
     (case posts t pid of
        None \<Rightarrow> (Inl no_rows, t)
      | Some p \<Rightarrow>
          if author_id p = uid
          then (Inr (p\<lparr>content := c\<rparr>), t\<lparr>posts := (posts t)(pid \<mapsto> p\<lparr>content := c\<rparr>)\<rparr>)
          else (Inl no_rows, t))"

definition mem_insert_post :: "post \<Rightarrow> tables \<Rightarrow> (store_error + post) \<times> tables" where
  "mem_insert_post row t =
     (case posts t (id_col row) of
        Some p \<Rightarrow> (Inl duplicate_key, t)
      | None \<Rightarrow> (Inr row, t\<lparr>posts := (posts t)(id_col row \<mapsto> row)\<rparr>))"

definition mem_delete_likes :: "post_id \<Rightarrow> tables \<Rightarrow> store_error option \<times> tables" where
  "mem_delete_likes pid t = (None, t\<lparr>likes_rows := filter (\<lambda>r. fst r \<noteq> pid) (likes_rows t)\<rparr>)"

definition mem_delete_comments :: "post_id \<Rightarrow> tables \<Rightarrow> store_error option \<times> tables" where
  "mem_delete_comments pid t =
     (None, t\<lparr>comments_rows := filter (\<lambda>r. fst r \<noteq> pid) (comments_rows t)\<rparr>)"

definition mem_delete_post :: "post_id \<Rightarrow> user_id \<Rightarrow> tables \<Rightarrow> store_error option \<times> tables" where
  "mem_delete_post pid uid t =
     (case posts t pid of
        None \<Rightarrow> (None, t)
      | Some p \<Rightarrow>
          if author_id p = uid then (None, t\<lparr>posts := (posts t)(pid := None)\<rparr>) else (None, t))"

definition mem_count_likes :: "post_id \<Rightarrow> tables \<Rightarrow> nat option" where
  "mem_count_likes pid t = Some (length (filter (\<lambda>r. fst r = pid) (likes_rows t)))"

definition mem_count_comments :: "post_id \<Rightarrow> tables \<Rightarrow> nat option" where
  "mem_count_comments pid t = Some (length (filter (\<lambda>r. fst r = pid) (comments_rows t)))"

definition mem_store :: "tables post_store" where
  "mem_store =
     \<lparr>select_post = mem_select_post,
      update_content = mem_update_content,
      insert_post = mem_insert_post,
      delete_likes = mem_delete_likes,
      delete_comments = mem_delete_comments,
      delete_post = mem_delete_post,
      count_likes = mem_count_likes,
      count_comments = mem_count_comments\<rparr>"

section \<open>Example states\<close>

text \<open>
  User 1 owns post 7 with content \<open>"A"\<close> and 3 likes; \<open>ex_full_server\<close> holds ten
  recorded edits for user 1. In \<open>ex_orphan_server\<close> the post of the recorded edit is
  gone from the table, in \<open>ex_dup_server\<close> the post of the recorded delete is still
  there, and \<open>ex_unknown_server\<close> has an object of another \<open>type\<close> on top.
\<close>

definition ex_post :: post where
  "ex_post = \<lparr>id_col = 7, author_id = 1, content = [0x41], likes = 3, created_at = [0x74]\<rparr>"

definition ex_tables :: tables where
  "ex_tables = \<lparr>posts = Map.empty(7 \<mapsto> ex_post), likes_rows = [(7, 2)], comments_rows = []\<rparr>"

definition ex_edit :: action where
  "ex_edit = EDIT 7 [0x40] [0x41] [0x73]"

definition ex_server :: "tables server" where
  "ex_server = \<lparr>undoStack = Map.empty, db = ex_tables\<rparr>"

definition ex_full_server :: "tables server" where
  "ex_full_server =
     \<lparr>undoStack = Map.empty(1 \<mapsto> [ex_edit, ex_edit, ex_edit, ex_edit, ex_edit,
                                    ex_edit, ex_edit, ex_edit, ex_edit, ex_edit]),
      db = ex_tables\<rparr>"

definition ex_orphan_server :: "tables server" where
  "ex_orphan_server =
     \<lparr>undoStack = Map.empty(1 \<mapsto> [ex_edit]),
      db = \<lparr>posts = Map.empty, likes_rows = [], comments_rows = []\<rparr>\<rparr>"

definition ex_dup_server :: "tables server" where
  "ex_dup_server = \<lparr>undoStack = Map.empty(1 \<mapsto> [DELETE ex_post [0x73]]), db = ex_tables\<rparr>"

definition ex_unknown_server :: "tables server" where
  "ex_unknown_server =
     \<lparr>undoStack = Map.empty(1 \<mapsto> [ex_edit, OTHER ''LIKE'' [0x73]]), db = ex_tables\<rparr>"

section \<open>Properties of UndoStack\<close>

lemma entries_push:
  "entries (push m u a) u =
     (if length (entries m u) < 10 then entries m u @ [a] else tl (entries m u @ [a]))"
  by (simp add: entries_def push_def Let_def split: option.splits)

lemma size_of_entries: "size_of m u = length (entries m u)"
  by (simp add: size_of_def entries_def split: option.splits)

lemma push_other: "v \<noteq> u \<Longrightarrow> push m u a v = m v"
  by (simp add: push_def Let_def)

lemma pop_other: "v \<noteq> u \<Longrightarrow> snd (pop m u) v = m v"
  by (simp add: pop_def split: option.splits)

lemma clear_other: "v \<noteq> u \<Longrightarrow> clear m u v = m v"
  by (simp add: clear_def)

lemma entries_pop: "entries (snd (pop m u)) u = butlast (entries m u)"
  by (simp add: entries_def pop_def split: option.splits)

lemma fst_pop: "fst (pop m u) = (if entries m u = [] then None else Some (last (entries m u)))"
  by (simp add: entries_def pop_def split: option.splits)

lemma entries_clear: "entries (clear m u) u = []"
  by (simp add: entries_def clear_def)

lemma peek_entries:
  "peek m u = (if entries m u = [] then None else Some (last (entries m u)))"
  by (simp add: entries_def peek_def last_conv_nth split: option.splits)

lemma isEmpty_entries: "isEmpty m u \<longleftrightarrow> entries m u = []"
  by (simp add: entries_def isEmpty_def split: option.splits)

lemma size_of_push_le: "size_of m u \<le> 10 \<Longrightarrow> size_of (push m u a) u \<le> 10"
  by (simp add: size_of_entries entries_push)

lemma size_of_exec_op:
  assumes "\<forall>u. size_of m u \<le> 10"
  shows "size_of (exec_op c m) v \<le> 10"
proof (cases "target c = v")
  case True
  moreover have "size_of m v \<le> 10"
    using assms by simp
  ultimately show ?thesis
    by (cases c) (auto simp: size_of_entries entries_push entries_pop entries_clear)
next
  case False
  then have "exec_op c m v = m v"
    by (cases c) (simp_all add: push_other pop_other clear_other)
  then have "size_of (exec_op c m) v = size_of m v"
    by (simp add: size_of_def)
  then show ?thesis
    using assms by simp
qed

lemma size_of_run_ops:
  "\<forall>u. size_of m u \<le> 10 \<Longrightarrow> size_of (run_ops cs m) v \<le> 10"
proof (induction cs arbitrary: m)
  case Nil
  then show ?case by simp
next
  case (Cons c cs)
  have "\<forall>u. size_of (exec_op c m) u \<le> 10"
    using Cons.prems by (simp add: size_of_exec_op)
  then show ?case
    using Cons.IH by simp
qed

lemma entries_push_drop:
  "length (entries m u) \<le> 10 \<Longrightarrow>
   entries (push m u a) u = drop (length (entries m u) + 1 - 10) (entries m u @ [a])"
  by (cases "entries m u") (auto simp: entries_push drop_Suc)

lemma entries_pushes:
  "length (entries m u) \<le> 10 \<Longrightarrow>
   entries (run_ops (map (Push u) as) m) u =
     drop (length (entries m u) + length as - 10) (entries m u @ as)"
proof (induction as arbitrary: m)
  case Nil
  then show ?case by simp
next
  case (Cons a as)
  let ?e = "entries m u"
  let ?e' = "entries (push m u a) u"
  have len': "length ?e' \<le> 10"
    using Cons.prems size_of_push_le [of m u a] by (simp add: size_of_entries)
  have step: "entries (run_ops (map (Push u) (a # as)) m) u =
      drop (length ?e' + length as - 10) (?e' @ as)"
    using Cons.IH [OF len'] by simp
  show ?case
  proof (cases "length ?e < 10")
    case True
    then have "?e' = ?e @ [a]"
      by (simp add: entries_push)
    then show ?thesis
      using step by simp
  next
    case False
    then have len: "length ?e = 10"
      using Cons.prems by simp
    then obtain x xs where e: "?e = x # xs"
      by (cases ?e) auto
    have "?e' = xs @ [a]"
      using len e by (simp add: entries_push)
    then show ?thesis
      using step len e by (simp add: drop_Suc)
  qed
qed

lemma pops_Suc:
  "fst (pops (Suc n) u m) = fst (pop m u) # fst (pops n u (snd (pop m u)))"
  by (simp split: prod.splits)

lemma fst_pops:
  "fst (pops n u m) =
     take n (map Some (rev (entries m u))) @ replicate (n - length (entries m u)) None"
proof (induction n arbitrary: m)
  case 0
  then show ?case by simp
next
  case (Suc n)
  let ?e = "entries m u"
  note IH = Suc.IH [of "snd (pop m u)", unfolded entries_pop]
  show ?case
  proof (cases ?e rule: rev_cases)
    case Nil
    then have "fst (pops (Suc n) u m) = None # replicate n None"
      using IH by (simp only: pops_Suc fst_pop) simp
    then show ?thesis
      using Nil by simp
  next
    case (snoc xs x)
    then have "fst (pops (Suc n) u m) =
        Some x # take n (map Some (rev xs)) @ replicate (n - length xs) None"
      using IH by (simp only: pops_Suc fst_pop) simp
    then show ?thesis
      using snoc by simp
  qed
qed

text \<open>
  Claim C2. Starting from the mapping the constructor creates, after any sequence of
  calls of the six methods every user's array holds at most 10 actions. From a state
  where user \<open>u\<close> has no recorded action, up to 10 pushes for \<open>u\<close> leave as many
  actions as were pushed; 11 pushes leave 10, namely all but the first one pushed, and
  \<open>n\<close> repeated pops then return the last ten pushed, newest first, and null from
  then on: the slot of the first push is never returned.
\<close>

theorem undo_stack_bounded:
  "size_of (run_ops cs Map.empty) v \<le> 10
   \<and> (isEmpty m u \<and> length as \<le> 10 \<longrightarrow>
        size_of (run_ops (map (Push u) as) m) u = length as)
   \<and> (isEmpty m u \<and> length as = 11 \<longrightarrow>
        size_of (run_ops (map (Push u) as) m) u = 10
        \<and> entries (run_ops (map (Push u) as) m) u = tl as
        \<and> fst (pops n u (run_ops (map (Push u) as) m)) =
            take n (map Some (rev (tl as))) @ replicate (n - 10) None)"
proof (intro conjI impI)
  show "size_of (run_ops cs Map.empty) v \<le> 10"
    by (rule size_of_run_ops) (simp add: size_of_def)
next
  assume "isEmpty m u \<and> length as \<le> 10"
  then show "size_of (run_ops (map (Push u) as) m) u = length as"
    by (simp add: size_of_entries entries_pushes isEmpty_entries)
next
  assume a: "isEmpty m u \<and> length as = 11"
  then have e: "entries (run_ops (map (Push u) as) m) u = tl as"
    by (simp add: entries_pushes isEmpty_entries drop_Suc)
  show "size_of (run_ops (map (Push u) as) m) u = 10"
    using a e by (simp add: size_of_entries)
  show "entries (run_ops (map (Push u) as) m) u = tl as"
    by (rule e)
  show "fst (pops n u (run_ops (map (Push u) as) m)) =
          take n (map Some (rev (tl as))) @ replicate (n - 10) None"
    using a by (simp add: fst_pops e)
qed

theorem undo_stack_bounded_witness:
  "isEmpty Map.empty 1
   \<and> length [OTHER ''a1'' [], OTHER ''a2'' [], OTHER ''a3'' [], OTHER ''a4'' [],
        OTHER ''a5'' [], OTHER ''a6'' [], OTHER ''a7'' [], OTHER ''a8'' [], OTHER ''a9'' [],
        OTHER ''a10'' [], OTHER ''a11'' []] = 11
   \<and> size_of (run_ops (map (Push 1)
        [OTHER ''a1'' [], OTHER ''a2'' [], OTHER ''a3'' [], OTHER ''a4'' [],
         OTHER ''a5'' [], OTHER ''a6'' [], OTHER ''a7'' [], OTHER ''a8'' [], OTHER ''a9'' [],
         OTHER ''a10'' [], OTHER ''a11'' []]) Map.empty) 1 = 10
   \<and> fst (pops 12 1 (run_ops (map (Push 1)
        [OTHER ''a1'' [], OTHER ''a2'' [], OTHER ''a3'' [], OTHER ''a4'' [],
         OTHER ''a5'' [], OTHER ''a6'' [], OTHER ''a7'' [], OTHER ''a8'' [], OTHER ''a9'' [],
         OTHER ''a10'' [], OTHER ''a11'' []]) Map.empty)) =
       [Some (OTHER ''a11'' []), Some (OTHER ''a10'' []), Some (OTHER ''a9'' []),
        Some (OTHER ''a8'' []), Some (OTHER ''a7'' []), Some (OTHER ''a6'' []),
        Some (OTHER ''a5'' []), Some (OTHER ''a4'' []), Some (OTHER ''a3'' []),
        Some (OTHER ''a2'' []), None, None]
   \<and> length [OTHER ''a1'' [], OTHER ''a2'' []] \<le> 10
   \<and> size_of (run_ops (map (Push 1) [OTHER ''a1'' [], OTHER ''a2'' []]) Map.empty) 1 = 2
   \<and> size_of (run_ops [Push 1 (OTHER ''a1'' []), Pop 1, Clear 1, Push 2 (OTHER ''a2'' [])]
         Map.empty) 2 \<le> 10"
proof -
  have h: "isEmpty Map.empty 1"
    by (simp add: isEmpty_def)
  show ?thesis
    using h
      undo_stack_bounded [where cs = "[Push 1 (OTHER ''a1'' []), Pop 1, Clear 1,
          Push 2 (OTHER ''a2'' [])]" and v = 2 and m = Map.empty and u = 1
        and as = "[OTHER ''a1'' [], OTHER ''a2'' []]" and n = 0]
      undo_stack_bounded [where cs = "[]" and v = 1 and m = Map.empty and u = 1
        and as = "[OTHER ''a1'' [], OTHER ''a2'' [], OTHER ''a3'' [], OTHER ''a4'' [],
          OTHER ''a5'' [], OTHER ''a6'' [], OTHER ''a7'' [], OTHER ''a8'' [], OTHER ''a9'' [],
          OTHER ''a10'' [], OTHER ''a11'' []]" and n = 12]
    by (simp add: numeral_eq_Suc)
qed

lemma last_entries_push:
  "entries (push m u a) u \<noteq> [] \<and> last (entries (push m u a) u) = a"
  by (cases "entries m u") (auto simp: entries_push)

text \<open>
  Claim C7. \<open>pop\<close> returns the action pushed last and removes exactly that entry from
  the back of the user's array; it returns null, and changes nothing, for a user with no
  entry or an empty array. \<open>peek\<close> returns what \<open>pop\<close> would return. Two pushes
  are popped in reverse order, also when the pushes evicted entries at the front.
\<close>

theorem pop_peek_lifo:
  "fst (pop (push m u a) u) = Some a
   \<and> peek (push m u a) u = Some a
   \<and> peek m u = fst (pop m u)
   \<and> entries (snd (pop m u)) u = butlast (entries m u)
   \<and> (m u = None \<or> m u = Some [] \<longrightarrow> pop m u = (None, m) \<and> peek m u = None)
   \<and> (entries m u \<noteq> [] \<longrightarrow> fst (pop m u) = Some (last (entries m u)))
   \<and> fst (pop (push (push m u a) u b) u) = Some b
   \<and> fst (pop (snd (pop (push (push m u a) u b) u)) u) = Some a"
proof -
  have top: "fst (pop (push m u a) u) = Some a" for m a
    by (simp add: fst_pop last_entries_push)
  let ?e = "entries (push m u a) u"
  have e: "?e \<noteq> []" "last ?e = a"
    by (simp_all add: last_entries_push)
  have "butlast (entries (push (push m u a) u b) u) \<noteq> []
      \<and> last (butlast (entries (push (push m u a) u b) u)) = a"
  proof (cases "length ?e < 10")
    case True
    then show ?thesis
      using e by (simp add: entries_push [of "push m u a"])
  next
    case False
    then obtain x y ys where "?e = x # y # ys"
      by (cases ?e; cases "tl ?e") auto
    then show ?thesis
      using e False by (simp add: entries_push [of "push m u a"])
  qed
  then have second: "fst (pop (snd (pop (push (push m u a) u b) u)) u) = Some a"
    by (simp add: fst_pop entries_pop)
  have none: "m u = None \<or> m u = Some [] \<longrightarrow> pop m u = (None, m) \<and> peek m u = None"
    by (auto simp: pop_def peek_def)
  show ?thesis
    using top second none
    by (simp add: peek_entries fst_pop entries_pop)
qed

theorem pop_peek_lifo_witness:
  "pop (Map.empty(1 \<mapsto> [])) 1 = (None, Map.empty(1 \<mapsto> []))
   \<and> peek (Map.empty(1 \<mapsto> [])) 1 = None
   \<and> pop Map.empty 2 = (None, Map.empty) \<and> peek Map.empty 2 = None
   \<and> entries (Map.empty(1 \<mapsto> [OTHER ''a'' [], OTHER ''b'' []])) 1 \<noteq> []
   \<and> fst (pop (Map.empty(1 \<mapsto> [OTHER ''a'' [], OTHER ''b'' []])) 1) = Some (OTHER ''b'' [])"
  using pop_peek_lifo [of "Map.empty(1 \<mapsto> [])" 1]
    pop_peek_lifo [of Map.empty 2]
    pop_peek_lifo [of "Map.empty(1 \<mapsto> [OTHER ''a'' [], OTHER ''b'' []])" 1]
  by (simp add: entries_def)

text \<open>
  Claim C10. A call of any of the six methods for user \<open>a\<close> leaves the entry of every
  other user \<open>b\<close> as it was.
\<close>

theorem stacks_isolated:
  "target c = a \<Longrightarrow> b \<noteq> a \<Longrightarrow> exec_op c m b = m b"
  by (cases c) (auto simp: push_other pop_other clear_other)

theorem stacks_isolated_witness:
  "target (Push 1 (OTHER ''x'' [])) = 1 \<and> (2::int) \<noteq> 1
   \<and> exec_op (Push 1 (OTHER ''x'' [])) (Map.empty(2 \<mapsto> [OTHER ''y'' []])) 2
       = Some [OTHER ''y'' []]"
  using stacks_isolated [of "Push 1 (OTHER ''x'' [])" 1 2 "Map.empty(2 \<mapsto> [OTHER ''y'' []])"]
  by simp

section \<open>Properties of the handlers\<close>

lemmas ex_defs = ex_post_def ex_tables_def ex_edit_def ex_server_def ex_full_server_def
  ex_orphan_server_def ex_dup_server_def ex_unknown_server_def

lemmas mem_defs = mem_store_def mem_select_post_def mem_update_content_def mem_insert_post_def
  mem_delete_likes_def mem_delete_comments_def mem_delete_post_def mem_count_likes_def
  mem_count_comments_def

lemmas stack_defs = push_def pop_def peek_def isEmpty_def size_of_def clear_def entries_def

lemma trim_B: "trim [0x42] = [0x42]"
  by (simp add: trim_def isWhiteSpace_def)

lemma peek_SomeD:
  "peek m u = Some a \<Longrightarrow>
   \<not> isEmpty m u \<and> pop m u = (Some a, snd (pop m u)) \<and> entries m u \<noteq> [] \<and> last (entries m u) = a"
  by (auto simp: peek_def isEmpty_def pop_def entries_def last_conv_nth
           split: option.splits if_splits)

lemma push_back:
  assumes "size_of m u \<le> 10" and "peek m u = Some a"
  shows "push (snd (pop m u)) u a = m"
proof -
  obtain xs where m: "m u = Some xs" and xs: "xs \<noteq> []" "last xs = a" "length xs \<le> 10"
    using assms peek_SomeD [OF assms(2)]
    by (cases "m u") (auto simp: entries_def size_of_def)
  have "butlast xs @ [a] = xs"
    using xs by auto
  then have "push (snd (pop m u)) u a = m(u \<mapsto> xs)"
    using m xs by (simp add: pop_def push_def Let_def)
  then show ?thesis
    using m by (simp add: fun_upd_idem)
qed

lemma post_eta:
  "\<lparr>id_col = id_col p, author_id = author_id p, content = content p, likes = likes p,
    created_at = created_at p\<rparr> = (p::post)"
  by simp

lemma pop_push:
  "\<not> isEmpty (push m u a) u \<and> pop (push m u a) u = (Some a, snd (pop (push m u a) u))"
  using last_entries_push [of m u a]
  by (simp add: isEmpty_entries prod_eq_iff fst_pop)

lemma size_of_pop_push:
  "size_of (snd (pop (push m u a) u)) u =
     (if size_of m u < 10 then size_of m u else size_of m u - 1)"
  by (simp add: size_of_entries entries_pop entries_push)

lemma size_of_push_any:
  "\<forall>v. size_of m v \<le> 10 \<Longrightarrow> size_of (push m u a) v \<le> 10"
  using size_of_exec_op [of m "Push u a" v] by simp

lemma size_of_pop_any:
  "\<forall>v. size_of m v \<le> 10 \<Longrightarrow> size_of (snd (pop m u)) v \<le> 10"
  using size_of_exec_op [of m "Pop u" v] by simp

lemma posts_edit_bound:
  "\<forall>v. size_of (undoStack s) v \<le> 10 \<Longrightarrow>
   size_of (undoStack (snd (posts_edit st now u rp rc s))) v \<le> 10"
  by (auto simp: posts_edit_def Let_def size_of_push_any
           split: option.splits sum.splits prod.splits)

lemma posts_delete_bound:
  "\<forall>v. size_of (undoStack s) v \<le> 10 \<Longrightarrow>
   size_of (undoStack (snd (posts_delete st now u rp s))) v \<le> 10"
  by (auto simp: posts_delete_def Let_def size_of_push_any
           split: option.splits sum.splits prod.splits)

lemma posts_undo_bound:
  assumes "\<forall>v. size_of (undoStack s) v \<le> 10"
  shows "size_of (undoStack (snd (posts_undo st u s))) v \<le> 10"
proof -
  have p: "\<forall>v. size_of (snd (pop (undoStack s) u)) v \<le> 10"
    using assms by (simp add: size_of_pop_any)
  obtain r stk where pp: "pop (undoStack s) u = (r, stk)"
    by (cases "pop (undoStack s) u")
  then have stk: "\<forall>v. size_of stk v \<le> 10"
    using p by simp
  then have "size_of (push stk u a) v \<le> 10" for a
    by (simp add: size_of_push_any)
  then show ?thesis
    using assms stk
    by (auto simp: posts_undo_def pp split: option.splits action.splits sum.splits prod.splits)
qed

text \<open>
  Whatever the store does: the edit and the delete handler record the row the select
  returned, before the write, and the undo handler passes the recorded content to the
  update and the recorded row, with its id, to the insert.
\<close>

lemma edit_records_original:
  assumes "pid \<noteq> 0" and "trim c \<noteq> []" and "select_post st pid u (db s) = Inr p"
  shows "undoStack (snd (posts_edit st now u (Some pid) (Some c) s)) =
           push (undoStack s) u (EDIT (id_col p) (content p) (trim c) now)
         \<and> db (snd (posts_edit st now u (Some pid) (Some c) s)) =
           snd (update_content st pid u (trim c) (db s))"
proof -
  have "c \<noteq> []"
    using assms(2) by (auto simp: trim_def)
  then show ?thesis
    using assms by (simp add: posts_edit_def Let_def split: prod.splits sum.splits)
qed

lemma delete_records_snapshot:
  assumes "pid \<noteq> 0" and "select_post st pid u (db s) = Inr p"
  shows "undoStack (snd (posts_delete st now u (Some pid) s)) =
           push (undoStack s) u (DELETE p now)"
  using assms
  by (simp add: posts_delete_def Let_def post_eta split: prod.splits option.splits)

lemma undo_edit_writes_original:
  assumes "peek (undoStack s) u = Some (EDIT pid oc nc ts)"
  shows "db (snd (posts_undo st u s)) = snd (update_content st pid u oc (db s))"
proof -
  obtain stk where "pop (undoStack s) u = (Some (EDIT pid oc nc ts), stk)"
    using peek_SomeD [OF assms] by auto
  then show ?thesis
    using peek_SomeD [OF assms]
    by (simp add: posts_undo_def split: prod.splits sum.splits)
qed

lemma undo_delete_inserts_snapshot:
  assumes "peek (undoStack s) u = Some (DELETE p ts)"
  shows "db (snd (posts_undo st u s)) = snd (insert_post st p (db s))"
proof -
  obtain stk where "pop (undoStack s) u = (Some (DELETE p ts), stk)"
    using peek_SomeD [OF assms] by auto
  then show ?thesis
    using peek_SomeD [OF assms]
    by (simp add: posts_undo_def post_eta split: prod.splits sum.splits)
qed

text \<open>
  Claim C1. When the action on top of a user's stack is an EDIT and the update that
  restores the content answers an error, or it is a DELETE and the insert that restores
  the post answers an error, the undo handler answers 500 with the store's message and
  the whole mapping of stacks is the one before the request: the popped action is back
  on top. The stack holds at most 10 actions, as every stack the server builds does.
\<close>

theorem failed_undo_restores_stack:
  "size_of (undoStack s) u \<le> 10 \<Longrightarrow>
   (peek (undoStack s) u = Some (EDIT pid oc nc ts)
      \<and> fst (update_content st pid u oc (db s)) = Inl e)
   \<or> (peek (undoStack s) u = Some (DELETE p ts)
      \<and> fst (insert_post st p (db s)) = Inl e) \<Longrightarrow>
   undoStack (snd (posts_undo st u s)) = undoStack s
   \<and> entries (undoStack (snd (posts_undo st u s))) u = entries (undoStack s) u
   \<and> status (fst (posts_undo st u s)) = 500
   \<and> success (fst (posts_undo st u s)) = False
   \<and> error (fst (posts_undo st u s)) = Some (err_message e)"
proof (elim disjE conjE)
  assume b: "size_of (undoStack s) u \<le> 10"
    and top: "peek (undoStack s) u = Some (EDIT pid oc nc ts)"
    and w: "fst (update_content st pid u oc (db s)) = Inl e"
  obtain d where "update_content st pid u oc (db s) = (Inl e, d)"
    using w by (cases "update_content st pid u oc (db s)") auto
  moreover note peek_SomeD [OF top] push_back [OF b top]
  moreover obtain stk where "pop (undoStack s) u = (Some (EDIT pid oc nc ts), stk)"
    using peek_SomeD [OF top] by auto
  ultimately show ?thesis
    by (simp add: posts_undo_def failure_def)
next
  assume b: "size_of (undoStack s) u \<le> 10"
    and top: "peek (undoStack s) u = Some (DELETE p ts)"
    and w: "fst (insert_post st p (db s)) = Inl e"
  obtain d where "insert_post st p (db s) = (Inl e, d)"
    using w by (cases "insert_post st p (db s)") auto
  moreover note peek_SomeD [OF top] push_back [OF b top]
  moreover obtain stk where "pop (undoStack s) u = (Some (DELETE p ts), stk)"
    using peek_SomeD [OF top] by auto
  ultimately show ?thesis
    by (simp add: posts_undo_def failure_def post_eta)
qed

theorem failed_undo_restores_stack_witness:
  "size_of (undoStack ex_orphan_server) 1 \<le> 10
   \<and> peek (undoStack ex_orphan_server) 1 = Some (EDIT 7 [0x40] [0x41] [0x73])
   \<and> fst (update_content mem_store 7 1 [0x40] (db ex_orphan_server)) = Inl no_rows
   \<and> undoStack (snd (posts_undo mem_store 1 ex_orphan_server)) = undoStack ex_orphan_server
   \<and> status (fst (posts_undo mem_store 1 ex_orphan_server)) = 500
   \<and> size_of (undoStack ex_dup_server) 1 \<le> 10
   \<and> peek (undoStack ex_dup_server) 1 = Some (DELETE ex_post [0x73])
   \<and> fst (insert_post mem_store ex_post (db ex_dup_server)) = Inl duplicate_key
   \<and> undoStack (snd (posts_undo mem_store 1 ex_dup_server)) = undoStack ex_dup_server
   \<and> status (fst (posts_undo mem_store 1 ex_dup_server)) = 500"
proof -
  have a: "size_of (undoStack ex_orphan_server) 1 \<le> 10"
    by (simp add: ex_defs size_of_def)
  have b: "peek (undoStack ex_orphan_server) 1 = Some (EDIT 7 [0x40] [0x41] [0x73])
      \<and> fst (update_content mem_store 7 1 [0x40] (db ex_orphan_server)) = Inl no_rows"
    by (simp add: ex_defs peek_def mem_defs)
  have c: "size_of (undoStack ex_dup_server) 1 \<le> 10"
    by (simp add: ex_defs size_of_def)
  have d: "peek (undoStack ex_dup_server) 1 = Some (DELETE ex_post [0x73])
      \<and> fst (insert_post mem_store ex_post (db ex_dup_server)) = Inl duplicate_key"
    by (simp add: ex_defs peek_def mem_defs)
  show ?thesis
    using a b c d
      failed_undo_restores_stack [OF a disjI1, OF b]
      failed_undo_restores_stack [OF c disjI2, OF d]
    by simp
qed

text \<open>
  Claim C5. For a user with no entry in the mapping or with an empty array, the undo
  handler answers 400 \<open>No actions to undo\<close> and returns the stacks and the database
  as they were, whatever the store.
\<close>

theorem undo_nothing_to_undo:
  "undoStack s u = None \<or> undoStack s u = Some [] \<Longrightarrow>
   posts_undo st u s = (failure 400 ''No actions to undo'' None, s)
   \<and> status (fst (posts_undo st u s)) = 400
   \<and> message (fst (posts_undo st u s)) = ''No actions to undo''
   \<and> snd (posts_undo st u s) = s"
  by (auto simp: posts_undo_def isEmpty_def failure_def)

theorem undo_nothing_to_undo_witness:
  "undoStack ex_server 1 = None
   \<and> posts_undo mem_store 1 ex_server = (failure 400 ''No actions to undo'' None, ex_server)
   \<and> undoStack (ex_server\<lparr>undoStack := Map.empty(1 \<mapsto> [])\<rparr>) 1 = Some []
   \<and> snd (posts_undo mem_store 1 (ex_server\<lparr>undoStack := Map.empty(1 \<mapsto> [])\<rparr>))
       = ex_server\<lparr>undoStack := Map.empty(1 \<mapsto> [])\<rparr>"
proof -
  have a: "undoStack ex_server 1 = None"
    by (simp add: ex_defs)
  have b: "undoStack (ex_server\<lparr>undoStack := Map.empty(1 \<mapsto> [])\<rparr>) 1 = Some []"
    by simp
  show ?thesis
    using a b undo_nothing_to_undo [OF disjI1, OF a, of mem_store]
      undo_nothing_to_undo [OF disjI2, OF b, of mem_store]
    by simp
qed

text \<open>
  Claim C9. When the action on top is neither an EDIT nor a DELETE, the undo handler
  answers 400 \<open>Unknown action type\<close> and leaves the stack as \<open>pop\<close> left it: the
  user's array has lost its last entry, and the database is untouched.
\<close>

theorem undo_unknown_type_drops_action:
  "peek (undoStack s) u = Some (OTHER tag ts) \<Longrightarrow>
   fst (posts_undo st u s) = failure 400 ''Unknown action type'' None
   \<and> status (fst (posts_undo st u s)) = 400
   \<and> undoStack (snd (posts_undo st u s)) = snd (pop (undoStack s) u)
   \<and> entries (undoStack (snd (posts_undo st u s))) u = butlast (entries (undoStack s) u)
   \<and> Suc (size_of (undoStack (snd (posts_undo st u s))) u) = size_of (undoStack s) u
   \<and> undoStack (snd (posts_undo st u s)) \<noteq> undoStack s
   \<and> db (snd (posts_undo st u s)) = db s"
proof -
  assume top: "peek (undoStack s) u = Some (OTHER tag ts)"
  note d = peek_SomeD [OF top]
  obtain stk where p: "pop (undoStack s) u = (Some (OTHER tag ts), stk)"
    using d by auto
  have r: "posts_undo st u s =
      (failure 400 ''Unknown action type'' None, \<lparr>undoStack = stk, db = db s\<rparr>)"
    using d p by (simp add: posts_undo_def)
  have stk: "stk = snd (pop (undoStack s) u)"
    using p by simp
  have e: "entries stk u = butlast (entries (undoStack s) u)"
    by (simp add: stk entries_pop)
  have len: "Suc (size_of stk u) = size_of (undoStack s) u"
    using d by (simp add: size_of_entries e)
  have "stk \<noteq> undoStack s"
    using len by auto
  then show ?thesis
    using r stk e len by (simp add: failure_def)
qed

theorem undo_unknown_type_drops_action_witness:
  "peek (undoStack ex_unknown_server) 1 = Some (OTHER ''LIKE'' [0x73])
   \<and> status (fst (posts_undo mem_store 1 ex_unknown_server)) = 400
   \<and> entries (undoStack (snd (posts_undo mem_store 1 ex_unknown_server))) 1 = [ex_edit]"
proof -
  have a: "peek (undoStack ex_unknown_server) 1 = Some (OTHER ''LIKE'' [0x73])"
    by (simp add: ex_defs peek_def)
  have e: "entries (undoStack ex_unknown_server) 1 = [ex_edit, OTHER ''LIKE'' [0x73]]"
    by (simp add: ex_defs entries_def)
  show ?thesis
    using a undo_unknown_type_drops_action [OF a, of mem_store]
    by (simp add: e failure_def entries_pop)
qed

text \<open>
  Claim C6. When the target post does not exist or belongs to another user, the edit and
  the delete handler return the stacks and the database unchanged; a request that passes
  the validation of its fields is answered 404 with one message, the same whether the
  post is missing or is someone else's.
\<close>

theorem not_owned_rejected:
  "\<forall>p. posts (db s) pid = Some p \<longrightarrow> author_id p \<noteq> u \<Longrightarrow>
   snd (posts_edit mem_store now u (Some pid) rc s) = s
   \<and> snd (posts_delete mem_store now u (Some pid) s) = s
   \<and> (pid \<noteq> 0 \<and> trim c \<noteq> [] \<longrightarrow>
        fst (posts_edit mem_store now u (Some pid) (Some c) s) =
          failure 404 ''Post not found or you do not have permission to edit it'' None)
   \<and> (pid \<noteq> 0 \<longrightarrow>
        fst (posts_delete mem_store now u (Some pid) s) =
          failure 404 ''Post not found or you do not have permission to delete it'' None)"
proof -
  assume "\<forall>p. posts (db s) pid = Some p \<longrightarrow> author_id p \<noteq> u"
  then have sel: "select_post mem_store pid u (db s) = Inl no_rows"
    by (auto simp: mem_store_def mem_select_post_def split: option.splits)
  have "trim c \<noteq> [] \<Longrightarrow> c \<noteq> []"
    by (auto simp: trim_def)
  then show ?thesis
    using sel by (auto simp: posts_edit_def posts_delete_def split: option.splits)
qed

theorem not_owned_rejected_witness:
  "posts (db ex_server) 7 = Some ex_post \<and> author_id ex_post \<noteq> 2
   \<and> (7::int) \<noteq> 0 \<and> trim [0x42] \<noteq> []
   \<and> posts_edit mem_store [0x74] 2 (Some 7) (Some [0x42]) ex_server =
       (failure 404 ''Post not found or you do not have permission to edit it'' None, ex_server)
   \<and> posts_delete mem_store [0x74] 2 (Some 7) ex_server =
       (failure 404 ''Post not found or you do not have permission to delete it'' None,
        ex_server)
   \<and> posts (db ex_server) 8 = None
   \<and> posts_edit mem_store [0x74] 1 (Some 8) (Some [0x42]) ex_server =
       (failure 404 ''Post not found or you do not have permission to edit it'' None, ex_server)
   \<and> posts_delete mem_store [0x74] 1 (Some 8) ex_server =
       (failure 404 ''Post not found or you do not have permission to delete it'' None,
        ex_server)"
proof -
  have a: "posts (db ex_server) 7 = Some ex_post \<and> author_id ex_post \<noteq> 2"
    by (simp add: ex_defs)
  have b: "posts (db ex_server) 8 = None"
    by (simp add: ex_defs)
  have a': "\<forall>p. posts (db ex_server) 7 = Some p \<longrightarrow> author_id p \<noteq> 2"
    using a by simp
  have b': "\<forall>p. posts (db ex_server) 8 = Some p \<longrightarrow> author_id p \<noteq> 1"
    using b by simp
  show ?thesis
    using a b
      not_owned_rejected [where now = "[0x74]" and rc = "Some [0x42]" and c = "[0x42]", OF a']
      not_owned_rejected [where now = "[0x74]" and rc = "Some [0x42]" and c = "[0x42]", OF b']
    by (simp add: trim_B prod_eq_iff)
qed

text \<open>
  Claim C3. For a post \<open>p\<close> stored under its id and owned by \<open>u\<close>, the delete request
  succeeds, removes the row and records \<open>DELETE p\<close>; the undo request that follows
  succeeds and the row stored under the original id is \<open>p\<close> again, with its id, author,
  content, likes and creation time; the table of posts is the one before the delete.
\<close>

theorem delete_then_undo_restores_post:
  assumes "posts (db s) (id_col p) = Some p" and "author_id p = u" and "id_col p \<noteq> 0"
  shows "status (fst (posts_delete mem_store now u (Some (id_col p)) s)) = 200
   \<and> posts (db (snd (posts_delete mem_store now u (Some (id_col p)) s))) (id_col p) = None
   \<and> peek (undoStack (snd (posts_delete mem_store now u (Some (id_col p)) s))) u
       = Some (DELETE p now)
   \<and> status (fst (posts_undo mem_store u
        (snd (posts_delete mem_store now u (Some (id_col p)) s)))) = 200
   \<and> posts (db (snd (posts_undo mem_store u
        (snd (posts_delete mem_store now u (Some (id_col p)) s))))) (id_col p) = Some p
   \<and> posts (db (snd (posts_undo mem_store u
        (snd (posts_delete mem_store now u (Some (id_col p)) s))))) = posts (db s)"
proof -
  let ?stk = "push (undoStack s) u (DELETE p now)"
  let ?t = "db s\<lparr>likes_rows := filter (\<lambda>r. fst r \<noteq> id_col p) (likes_rows (db s)),
                 comments_rows := filter (\<lambda>r. fst r \<noteq> id_col p) (comments_rows (db s)),
                 posts := (posts (db s))(id_col p := None)\<rparr>"
  let ?t' = "?t\<lparr>posts := (posts (db s))(id_col p \<mapsto> p)\<rparr>"
  have sel: "select_post mem_store (id_col p) u (db s) = Inr p"
    using assms(1,2) by (simp add: mem_store_def mem_select_post_def)
  have rm: "delete_likes mem_store (id_col p) (db s) =
        (None, db s\<lparr>likes_rows := filter (\<lambda>r. fst r \<noteq> id_col p) (likes_rows (db s))\<rparr>)"
    "delete_comments mem_store (id_col p)
        (db s\<lparr>likes_rows := filter (\<lambda>r. fst r \<noteq> id_col p) (likes_rows (db s))\<rparr>) =
        (None, db s\<lparr>likes_rows := filter (\<lambda>r. fst r \<noteq> id_col p) (likes_rows (db s)),
          comments_rows := filter (\<lambda>r. fst r \<noteq> id_col p) (comments_rows (db s))\<rparr>)"
    "delete_post mem_store (id_col p) u
        (db s\<lparr>likes_rows := filter (\<lambda>r. fst r \<noteq> id_col p) (likes_rows (db s)),
          comments_rows := filter (\<lambda>r. fst r \<noteq> id_col p) (comments_rows (db s))\<rparr>) =
        (None, ?t)"
    using assms(1,2)
    by (simp_all add: mem_store_def mem_delete_likes_def mem_delete_comments_def
          mem_delete_post_def)
  have del: "posts_delete mem_store now u (Some (id_col p)) s =
      (ok ''Post deleted successfully'' (DeleteData (id_col p)), \<lparr>undoStack = ?stk, db = ?t\<rparr>)"
    using assms(3) by (simp add: posts_delete_def sel rm post_eta)
  have ins: "insert_post mem_store p ?t = (Inr p, ?t')"
    by (simp add: mem_store_def mem_insert_post_def)
  obtain stk where pp: "pop ?stk u = (Some (DELETE p now), stk)"
    using pop_push [of "undoStack s" u "DELETE p now"] by metis
  have undo: "posts_undo mem_store u \<lparr>undoStack = ?stk, db = ?t\<rparr> =
      (ok ''Delete undone successfully''
         (UndoData ''UNDO_DELETE'' (restored_view mem_store p ?t') (size_of stk u)),
       \<lparr>undoStack = stk, db = ?t'\<rparr>)"
    using pop_push [of "undoStack s" u "DELETE p now"]
    by (simp add: posts_undo_def pp ins post_eta)
  have "(posts (db s))(id_col p \<mapsto> p) = posts (db s)"
    using assms(1) by (simp add: fun_upd_idem)
  then show ?thesis
    using assms(1) last_entries_push [of "undoStack s" u "DELETE p now"]
    by (simp add: del undo ok_def peek_entries)
qed

theorem delete_then_undo_restores_post_witness:
  "posts (db ex_server) (id_col ex_post) = Some ex_post \<and> author_id ex_post = 1
   \<and> id_col ex_post \<noteq> 0
   \<and> posts (db (snd (posts_delete mem_store [0x74] 1 (Some 7) ex_server))) 7 = None
   \<and> posts (db (snd (posts_undo mem_store 1
        (snd (posts_delete mem_store [0x74] 1 (Some 7) ex_server))))) 7 =
       Some \<lparr>id_col = 7, author_id = 1, content = [0x41], likes = 3, created_at = [0x74]\<rparr>"
proof -
  have a: "posts (db ex_server) (id_col ex_post) = Some ex_post"
    by (simp add: ex_defs)
  have b: "author_id ex_post = 1" and c: "id_col ex_post \<noteq> 0" and d: "id_col ex_post = 7"
    by (simp_all add: ex_defs)
  show ?thesis
    using a b c delete_then_undo_restores_post [OF a b c, of "[0x74]"]
    by (simp add: d) (simp add: ex_post_def)
qed

text \<open>
  Claim C4. For a post \<open>p\<close> owned by \<open>u\<close>, the edit request with new content \<open>c\<close>
  succeeds, stores the trimmed \<open>c\<close> and records an EDIT whose original content is the
  content \<open>p\<close> had before the update; the undo request that follows succeeds and the
  row is \<open>p\<close> again, so the content is the original one.
\<close>

theorem edit_then_undo_restores_content:
  assumes "posts (db s) (id_col p) = Some p" and "author_id p = u" and "id_col p \<noteq> 0"
    and "trim c \<noteq> []"
  shows "status (fst (posts_edit mem_store now u (Some (id_col p)) (Some c) s)) = 200
   \<and> posts (db (snd (posts_edit mem_store now u (Some (id_col p)) (Some c) s))) (id_col p)
       = Some (p\<lparr>content := trim c\<rparr>)
   \<and> peek (undoStack (snd (posts_edit mem_store now u (Some (id_col p)) (Some c) s))) u
       = Some (EDIT (id_col p) (content p) (trim c) now)
   \<and> status (fst (posts_undo mem_store u
        (snd (posts_edit mem_store now u (Some (id_col p)) (Some c) s)))) = 200
   \<and> posts (db (snd (posts_undo mem_store u
        (snd (posts_edit mem_store now u (Some (id_col p)) (Some c) s))))) (id_col p) = Some p
   \<and> db (snd (posts_undo mem_store u
        (snd (posts_edit mem_store now u (Some (id_col p)) (Some c) s)))) = db s"
proof -
  let ?a = "EDIT (id_col p) (content p) (trim c) now"
  let ?stk = "push (undoStack s) u ?a"
  let ?t = "db s\<lparr>posts := (posts (db s))(id_col p \<mapsto> p\<lparr>content := trim c\<rparr>)\<rparr>"
  have c: "c \<noteq> []"
    using assms(4) by (auto simp: trim_def)
  have sel: "select_post mem_store (id_col p) u (db s) = Inr p"
    using assms(1,2) by (simp add: mem_store_def mem_select_post_def)
  have upd1: "update_content mem_store (id_col p) u (trim c) (db s) =
      (Inr (p\<lparr>content := trim c\<rparr>), ?t)"
    using assms(1,2) by (simp add: mem_store_def mem_update_content_def)
  have ed: "posts_edit mem_store now u (Some (id_col p)) (Some c) s =
      (ok ''Post updated successfully'' (EditData (p\<lparr>content := trim c\<rparr>)),
       \<lparr>undoStack = ?stk, db = ?t\<rparr>)"
    using assms(3,4) c by (simp add: posts_edit_def sel upd1)
  have "(posts (db s))(id_col p \<mapsto> p) = posts (db s)"
    using assms(1) by (simp add: fun_upd_idem)
  then have upd: "update_content mem_store (id_col p) u (content p) ?t = (Inr p, db s)"
    using assms(2) by (simp add: mem_store_def mem_update_content_def)
  obtain stk where pp: "pop ?stk u = (Some ?a, stk)"
    using pop_push [of "undoStack s" u ?a] by metis
  have undo: "posts_undo mem_store u \<lparr>undoStack = ?stk, db = ?t\<rparr> =
      (ok ''Edit undone successfully''
         (UndoData ''UNDO_EDIT'' (restored_view mem_store p (db s)) (size_of stk u)),
       \<lparr>undoStack = stk, db = db s\<rparr>)"
    using pop_push [of "undoStack s" u ?a]
    by (simp add: posts_undo_def pp upd)
  show ?thesis
    using assms(1) last_entries_push [of "undoStack s" u ?a]
    by (simp add: ed undo ok_def peek_entries)
qed

theorem edit_then_undo_restores_content_witness:
  "posts (db ex_server) (id_col ex_post) = Some ex_post \<and> author_id ex_post = 1
   \<and> id_col ex_post \<noteq> 0 \<and> trim [0x42] \<noteq> [] \<and> content ex_post = [0x41]
   \<and> posts (db (snd (posts_edit mem_store [0x74] 1 (Some 7) (Some [0x42]) ex_server))) 7 =
       Some (ex_post\<lparr>content := [0x42]\<rparr>)
   \<and> posts (db (snd (posts_undo mem_store 1
        (snd (posts_edit mem_store [0x74] 1 (Some 7) (Some [0x42]) ex_server))))) 7 =
       Some ex_post"
proof -
  have a: "posts (db ex_server) (id_col ex_post) = Some ex_post"
    by (simp add: ex_defs)
  have b: "author_id ex_post = 1" and c: "id_col ex_post \<noteq> 0" and d: "id_col ex_post = 7"
    and e: "trim [0x42] \<noteq> []"
    by (simp_all add: ex_defs trim_B)
  show ?thesis
    using a b c e edit_then_undo_restores_content [OF a b c e, of "[0x74]"]
    by (simp add: d trim_B) (simp add: ex_post_def)
qed

text \<open>
  Claim C8, as stated, fails when the stack already holds 10 actions: the push of the
  edit evicts the oldest action, and the undo that follows reports 9 remaining undos,
  not 10.
\<close>

theorem remaining_undos_counterexample:
  "size_of (undoStack ex_full_server) 1 = 10
   \<and> status (fst (posts_edit mem_store [0x74] 1 (Some 7) (Some [0x42]) ex_full_server)) = 200
   \<and> status (fst (posts_undo mem_store 1
         (snd (posts_edit mem_store [0x74] 1 (Some 7) (Some [0x42]) ex_full_server)))) = 200
   \<and> remaining_undos (fst (posts_undo mem_store 1
         (snd (posts_edit mem_store [0x74] 1 (Some 7) (Some [0x42]) ex_full_server)))) = Some 9
   \<and> remaining_undos (fst (posts_undo mem_store 1
         (snd (posts_edit mem_store [0x74] 1 (Some 7) (Some [0x42]) ex_full_server))))
       \<noteq> Some (size_of (undoStack ex_full_server) 1)"
  by (simp add: posts_edit_def posts_undo_def ex_defs mem_defs stack_defs trim_B ok_def
        failure_def Let_def restored_view_def)

text \<open>
  Claim C8, amended. After an edit request that found the post, a successful undo
  reports as \<open>remaining_undos\<close> the size the user's stack had before the edit's push
  when that size was below 10, and 9 when the stack already held 10 actions.
\<close>

theorem remaining_undos_after_edit_undo:
  assumes "size_of (undoStack s) u \<le> 10"
    and "pid \<noteq> 0" and "trim c \<noteq> []"
    and "select_post st pid u (db s) = Inr p"
    and "fst (update_content st (id_col p) u (content p)
            (db (snd (posts_edit st now u (Some pid) (Some c) s)))) = Inr r"
  shows "status (fst (posts_undo st u (snd (posts_edit st now u (Some pid) (Some c) s)))) = 200
   \<and> remaining_undos (fst (posts_undo st u (snd (posts_edit st now u (Some pid) (Some c) s))))
       = Some (if size_of (undoStack s) u < 10 then size_of (undoStack s) u else 9)"
proof -
  let ?a = "EDIT (id_col p) (content p) (trim c) now"
  let ?stk = "push (undoStack s) u ?a"
  let ?s1 = "snd (posts_edit st now u (Some pid) (Some c) s)"
  have c: "c \<noteq> []"
    using assms(3) by (auto simp: trim_def)
  have stk1: "undoStack ?s1 = ?stk"
    using assms(2-4) c
    by (simp add: posts_edit_def Let_def split: prod.splits sum.splits)
  obtain d where upd: "update_content st (id_col p) u (content p) (db ?s1) = (Inr r, d)"
    using assms(5) by (cases "update_content st (id_col p) u (content p) (db ?s1)") auto
  obtain stk where pp: "pop ?stk u = (Some ?a, stk)"
    using pop_push [of "undoStack s" u ?a] by metis
  have "stk = snd (pop ?stk u)"
    using pp by simp
  then have sz: "size_of stk u = (if size_of (undoStack s) u < 10 then size_of (undoStack s) u else 9)"
    using assms(1) by (simp add: size_of_pop_push)
  have "posts_undo st u ?s1 =
      (ok ''Edit undone successfully''
         (UndoData ''UNDO_EDIT'' (restored_view st r d) (size_of stk u)),
       \<lparr>undoStack = stk, db = d\<rparr>)"
    using pop_push [of "undoStack s" u ?a]
    by (simp add: posts_undo_def stk1 pp upd)
  then show ?thesis
    by (simp add: ok_def sz)
qed

theorem remaining_undos_after_edit_undo_witness:
  "size_of (undoStack ex_full_server) 1 \<le> 10 \<and> (7::int) \<noteq> 0 \<and> trim [0x42] \<noteq> []
   \<and> select_post mem_store 7 1 (db ex_full_server) = Inr ex_post
   \<and> fst (update_content mem_store (id_col ex_post) 1 (content ex_post)
        (db (snd (posts_edit mem_store [0x74] 1 (Some 7) (Some [0x42]) ex_full_server))))
       = Inr ex_post
   \<and> remaining_undos (fst (posts_undo mem_store 1
        (snd (posts_edit mem_store [0x74] 1 (Some 7) (Some [0x42]) ex_full_server)))) = Some 9
   \<and> size_of (undoStack ex_server) 1 \<le> 10
   \<and> remaining_undos (fst (posts_undo mem_store 1
        (snd (posts_edit mem_store [0x74] 1 (Some 7) (Some [0x42]) ex_server)))) = Some 0"
proof -
  have a: "size_of (undoStack ex_full_server) 1 \<le> 10" "size_of (undoStack ex_server) 1 \<le> 10"
    by (simp_all add: ex_defs size_of_def)
  have b: "(7::int) \<noteq> 0" and c: "trim [0x42] \<noteq> []"
    by (simp_all add: trim_B)
  have d: "select_post mem_store 7 1 (db ex_full_server) = Inr ex_post"
    "select_post mem_store 7 1 (db ex_server) = Inr ex_post"
    by (simp_all add: ex_defs mem_defs)
  have e: "fst (update_content mem_store (id_col ex_post) 1 (content ex_post)
        (db (snd (posts_edit mem_store [0x74] 1 (Some 7) (Some [0x42]) ex_full_server))))
       = Inr ex_post"
    "fst (update_content mem_store (id_col ex_post) 1 (content ex_post)
        (db (snd (posts_edit mem_store [0x74] 1 (Some 7) (Some [0x42]) ex_server))))
       = Inr ex_post"
    by (simp_all add: posts_edit_def ex_defs mem_defs trim_B Let_def)
  show ?thesis
    using a b c d e
      remaining_undos_after_edit_undo [OF a(1) b c d(1) e(1)]
      remaining_undos_after_edit_undo [OF a(2) b c d(2) e(2)]
    by (simp add: ex_defs size_of_def)
qed

end
